theory Spec2Isabelle
  imports Complex_Main "HOL-Library.Multiset"
begin

section \<open>Data model\<close>

text \<open>
  The repository holds the same engine twice: \<^verbatim>\<open>app.py\<close> (the web entry point) and
  \<^verbatim>\<open>orders.py\<close> (the terminal entry point). The two differ in how the unit price of a
  zero-quantity row is computed; everything else is the same text. Where they agree one
  definition stands for both; where they differ the \<^verbatim>\<open>orders.py\<close> variant carries the
  suffix \<open>_orders\<close>.

  Modelling conventions.
  \<^item> A \<^verbatim>\<open>datetime.date\<close> is its day number (an \<open>int\<close>); \<^verbatim>\<open>(a - b).days\<close> is \<open>a - b\<close>.
  \<^item> Monetary amounts are Python floats; they are modelled as \<open>real\<close>, so rounding,
    infinities and NaN are outside the model. Two consequences: scores that are equal as
    reals can differ as floats (and the other way round), so the order in which
    \<open>sorted_matches\<close> lists candidates of nearly equal score need not be the order of the
    code; and a quantity too large for a float makes the code's division raise
    \<^verbatim>\<open>OverflowError\<close>, which the model does not have. The properties proved of the
    matching engine hold for every order of the candidates (\<open>select_all_inv\<close>).
  \<^item> Quantities are Python's unbounded \<^verbatim>\<open>int\<close>, modelled as \<open>int\<close>.
  \<^item> Python objects with identity (the \<^verbatim>\<open>Trade\<close> instances shared by matches and by the
    \<^verbatim>\<open>used_buy\<close>/\<^verbatim>\<open>used_sell\<close> sets) live in an arena, the list \<^verbatim>\<open>orders\<close>; a reference to
    a Trade is its index in that list.
\<close>

datatype py_error = ZeroDivisionError | KeyError

text \<open>One parsed CSV row, the dictionary built by \<^verbatim>\<open>load_orders\<close>.\<close>

record raw_record =
  r_date :: int
  r_type :: string
  r_ticker :: string
  r_total_amount :: real
  r_qty :: int

record Trade =
  date :: int
  order_type :: string
  ticker :: string
  total_amount :: real
  qty :: int
  price :: real
  original_qty :: int
  matched_qty :: int

text \<open>\<^verbatim>\<open>Trade.__init__\<close> of \<^verbatim>\<open>app.py\<close>: the division is guarded.\<close>

definition Trade_init :: "int \<Rightarrow> string \<Rightarrow> string \<Rightarrow> real \<Rightarrow> int \<Rightarrow> Trade" where
  "Trade_init d ot tk amount q =
     \<lparr>date = d, order_type = ot, ticker = tk, total_amount = amount, qty = q,
      price = (if q \<noteq> 0 then amount / real_of_int q else 0),
      original_qty = q, matched_qty = 0\<rparr>"

text \<open>\<^verbatim>\<open>Trade.__init__\<close> of \<^verbatim>\<open>orders.py\<close>: \<^verbatim>\<open>total_amount / qty\<close> raises on \<^verbatim>\<open>qty == 0\<close>.\<close>

definition Trade_init_orders :: "int \<Rightarrow> string \<Rightarrow> string \<Rightarrow> real \<Rightarrow> int \<Rightarrow> py_error + Trade" where
  "Trade_init_orders d ot tk amount q =
     (if q = 0 then Inl ZeroDivisionError
      else Inr \<lparr>date = d, order_type = ot, ticker = tk, total_amount = amount, qty = q,
                price = amount / real_of_int q,
                original_qty = q, matched_qty = 0\<rparr>)"

text \<open>
  A \<^verbatim>\<open>Match\<close> refers to its two Trades by arena index. \<open>m_qty\<close> is the field \<^verbatim>\<open>qty\<close> of the
  class (renamed: \<open>qty\<close> is the Trade's field).
\<close>

record Match =
  buy :: nat
  sell :: nat
  m_qty :: int
  profit :: real
  holding_period_days :: int
  is_wash_sale :: bool

definition check_wash_sale :: "Trade \<Rightarrow> Trade \<Rightarrow> bool" where
  "check_wash_sale b s \<longleftrightarrow>
     date s - date b \<le> 30 \<and> date s - date b > 0 \<and> price s < price b"

text \<open>
  \<^verbatim>\<open>Match.__init__\<close>, reading the two Trades from the arena as it is at construction time.
  Every call site passes indices below the length of the arena.
\<close>

definition Match_init :: "Trade list \<Rightarrow> nat \<Rightarrow> nat \<Rightarrow> int \<Rightarrow> Match" where
  "Match_init ts b s q =
     \<lparr>buy = b, sell = s, m_qty = q,
      profit = (price (ts ! s) - price (ts ! b)) * real_of_int q,
      holding_period_days = \<bar>date (ts ! s) - date (ts ! b)\<bar>,
      is_wash_sale = check_wash_sale (ts ! b) (ts ! s)\<rparr>"

definition is_short_term :: "Match \<Rightarrow> bool" where
  "is_short_term m \<longleftrightarrow> holding_period_days m \<le> 365"

definition is_long_term :: "Match \<Rightarrow> bool" where
  "is_long_term m \<longleftrightarrow> holding_period_days m > 365"

section \<open>Objective functions and the strategy table\<close>

definition objective_profit :: "Match list \<Rightarrow> real" where
  "objective_profit matches = sum_list (map profit matches)"

definition objective_loss :: "Match list \<Rightarrow> real" where
  "objective_loss matches = - sum_list (map profit matches)"

definition objective_short_term_profit :: "Match list \<Rightarrow> real" where
  "objective_short_term_profit matches = sum_list (map profit (filter is_short_term matches))"

definition objective_long_term_profit :: "Match list \<Rightarrow> real" where
  "objective_long_term_profit matches = sum_list (map profit (filter is_long_term matches))"

definition objective_short_term_loss :: "Match list \<Rightarrow> real" where
  "objective_short_term_loss matches = - sum_list (map profit (filter is_short_term matches))"

definition objective_long_term_loss :: "Match list \<Rightarrow> real" where
  "objective_long_term_loss matches = - sum_list (map profit (filter is_long_term matches))"

definition objective_minimal_loss :: "Match list \<Rightarrow> real" where
  "objective_minimal_loss matches = \<bar>min 0 (sum_list (map profit matches))\<bar>"

text \<open>
  \<^verbatim>\<open>strategy_map\<close>. The source pairs every function with a display name; the name is only
  printed and is left out.
\<close>

definition strategy_map :: "string \<Rightarrow> (Match list \<Rightarrow> real) option" where
  "strategy_map = map_of
     [(''1'', objective_profit),
      (''2'', objective_loss),
      (''3'', objective_short_term_profit),
      (''4'', objective_long_term_profit),
      (''5'', objective_short_term_loss),
      (''6'', objective_long_term_loss),
      (''7'', objective_minimal_loss)]"

section \<open>Wash-sale adjuster\<close>

text \<open>An open buy lot, the dictionary \<^verbatim>\<open>buy\<close> of \<^verbatim>\<open>apply_wash_sale\<close>.\<close>

record lot =
  l_date :: int
  l_ticker :: string
  l_qty :: int
  l_price :: real
  l_orig_total :: real
  l_adjusted :: bool

text \<open>An entry of the list \<^verbatim>\<open>wash_sales\<close>.\<close>

record wash_sale =
  ws_ticker :: string
  ws_sell_date :: int
  ws_buy_date :: int
  ws_adjustment_per_unit :: real
  ws_qty :: int
  ws_total_adjustment :: real
  ws_old_price :: real
  ws_new_price :: real

text \<open>
  The inner loop \<^verbatim>\<open>for buy in ticker_buys[ticker]\<close> run for one sell of ticker \<open>tk\<close>, date
  \<open>d\<close> and unit price \<open>p\<close>. It returns the lot list after the in-place updates and the
  entries appended to \<^verbatim>\<open>wash_sales\<close>. The \<^verbatim>\<open>break\<close> sits inside \<^verbatim>\<open>if loss_per_unit > 0\<close>:
  only that branch ends the scan.
\<close>

fun scan_lots :: "string \<Rightarrow> int \<Rightarrow> real \<Rightarrow> lot list \<Rightarrow> lot list \<times> wash_sale list" where
  "scan_lots tk d p [] = ([], [])"
| "scan_lots tk d p (b # bs) =
     (let days_diff = d - l_date b in
      if 0 < days_diff \<and> days_diff \<le> 30 \<and> \<not> l_adjusted b then
        (let loss_per_unit = l_price b - p in
         if loss_per_unit > 0 then
           (let adjustment = loss_per_unit;
                old_price = l_price b;
                b' = b\<lparr>l_price := l_price b + adjustment,
                       l_orig_total := l_orig_total b + adjustment * real_of_int (l_qty b),
                       l_adjusted := True\<rparr>
            in (b' # bs,
                [\<lparr>ws_ticker = tk, ws_sell_date = d, ws_buy_date = l_date b',
                  ws_adjustment_per_unit = adjustment, ws_qty = l_qty b',
                  ws_total_adjustment = adjustment * real_of_int (l_qty b'),
                  ws_old_price = old_price, ws_new_price = l_price b'\<rparr>]))
         else (case scan_lots tk d p bs of (bs', ws) \<Rightarrow> (b # bs', ws)))
      else (case scan_lots tk d p bs of (bs', ws) \<Rightarrow> (b # bs', ws)))"

text \<open>
  The state of the outer loop: \<^verbatim>\<open>ticker_buys\<close> (a \<^verbatim>\<open>defaultdict(list)\<close>, so a total function
  with default \<open>[]\<close>) and \<^verbatim>\<open>wash_sales\<close>.
\<close>

type_synonym wstate = "(string \<Rightarrow> lot list) \<times> wash_sale list"

text \<open>The body of \<^verbatim>\<open>for record in records\<close>, given the unit price already computed.\<close>

definition record_body :: "raw_record \<Rightarrow> real \<Rightarrow> wstate \<Rightarrow> wstate" where
  "record_body r p st =
     (let ticker_buys = fst st; wash_sales = snd st; tk = r_ticker r in
      if r_type r = ''buy'' then
        (ticker_buys(tk := ticker_buys tk @
            [\<lparr>l_date = r_date r, l_ticker = tk, l_qty = r_qty r, l_price = p,
              l_orig_total = r_total_amount r, l_adjusted = False\<rparr>]),
         wash_sales)
      else if r_type r = ''sell'' then
        (case scan_lots tk (r_date r) p (ticker_buys tk) of
           (bs', ws) \<Rightarrow> (ticker_buys(tk := bs'), wash_sales @ ws))
      else st)"

text \<open>\<^verbatim>\<open>app.py\<close>: \<^verbatim>\<open>price = total / qty if qty != 0 else 0.0\<close>.\<close>

definition process_record :: "raw_record \<Rightarrow> wstate \<Rightarrow> wstate" where
  "process_record r st =
     record_body r (if r_qty r \<noteq> 0 then r_total_amount r / real_of_int (r_qty r) else 0) st"

text \<open>\<^verbatim>\<open>orders.py\<close>: \<^verbatim>\<open>price = total / qty\<close>, computed before the record type is looked at.\<close>

definition process_record_orders :: "raw_record \<Rightarrow> wstate \<Rightarrow> py_error + wstate" where
  "process_record_orders r st =
     (if r_qty r = 0 then Inl ZeroDivisionError
      else Inr (record_body r (r_total_amount r / real_of_int (r_qty r)) st))"

definition wash_init :: wstate where
  "wash_init = (\<lambda>_. [], [])"

definition wash_pass :: "raw_record list \<Rightarrow> wstate \<Rightarrow> wstate" where
  "wash_pass records st = fold process_record records st"

definition apply_wash_sale :: "raw_record list \<Rightarrow> wash_sale list" where
  "apply_wash_sale records = snd (wash_pass records wash_init)"

fun wash_pass_orders :: "raw_record list \<Rightarrow> wstate \<Rightarrow> py_error + wstate" where
  "wash_pass_orders [] st = Inr st"
| "wash_pass_orders (r # rs) st =
     (case process_record_orders r st of
        Inl e \<Rightarrow> Inl e
      | Inr st' \<Rightarrow> wash_pass_orders rs st')"

definition apply_wash_sale_orders :: "raw_record list \<Rightarrow> py_error + wash_sale list" where
  "apply_wash_sale_orders records =
     (case wash_pass_orders records wash_init of
        Inl e \<Rightarrow> Inl e
      | Inr st \<Rightarrow> Inr (snd st))"

section \<open>Building the Trades\<close>

text \<open>
  The inner loop of \<^verbatim>\<open>load_orders\<close> (and of \<^verbatim>\<open>load_orders_from_stream\<close>): one entry of
  \<^verbatim>\<open>wash_sales\<close> applied to a freshly built Trade.
\<close>

definition apply_adjustment :: "wash_sale \<Rightarrow> Trade \<Rightarrow> Trade" where
  "apply_adjustment ws trade =
     (if order_type trade = ''buy'' \<and> ticker trade = ws_ticker ws \<and> date trade = ws_buy_date ws
      then trade\<lparr>price := ws_new_price ws,
                 total_amount := ws_new_price ws * real_of_int (qty trade)\<rparr>
      else trade)"

text \<open>
  \<^verbatim>\<open>load_orders\<close> of \<^verbatim>\<open>app.py\<close> from the parsed rows on (reading and parsing the CSV is
  outside the model).
\<close>

definition load_orders :: "raw_record list \<Rightarrow> Trade list" where
  "load_orders records =
     (let wash_sales = apply_wash_sale records in
      map (\<lambda>r. fold apply_adjustment wash_sales
                 (Trade_init (r_date r) (r_type r) (r_ticker r) (r_total_amount r) (r_qty r)))
          records)"

fun build_orders :: "wash_sale list \<Rightarrow> raw_record list \<Rightarrow> py_error + Trade list" where
  "build_orders wash_sales [] = Inr []"
| "build_orders wash_sales (r # rs) =
     (case Trade_init_orders (r_date r) (r_type r) (r_ticker r) (r_total_amount r) (r_qty r) of
        Inl e \<Rightarrow> Inl e
      | Inr trade \<Rightarrow>
          (case build_orders wash_sales rs of
             Inl e \<Rightarrow> Inl e
           | Inr orders \<Rightarrow> Inr (fold apply_adjustment wash_sales trade # orders)))"

text \<open>\<^verbatim>\<open>load_orders\<close> of \<^verbatim>\<open>orders.py\<close>, where both divisions can raise.\<close>

definition load_orders_orders :: "raw_record list \<Rightarrow> py_error + Trade list" where
  "load_orders_orders records =
     (case apply_wash_sale_orders records of
        Inl e \<Rightarrow> Inl e
      | Inr wash_sales \<Rightarrow> build_orders wash_sales records)"

section \<open>Matching engine\<close>

text \<open>
  \<^verbatim>\<open>buys\<close> and \<^verbatim>\<open>sells\<close> of \<^verbatim>\<open>generate_matches\<close>, as lists of arena indices. Python's
  \<^verbatim>\<open>list.sort\<close> is stable, as \<open>sort_key\<close> is.
\<close>

definition buys_of :: "Trade list \<Rightarrow> nat list" where
  "buys_of orders =
     sort_key (\<lambda>i. date (orders ! i))
       (filter (\<lambda>i. order_type (orders ! i) = ''buy'') [0..<length orders])"

definition sells_of :: "Trade list \<Rightarrow> nat list" where
  "sells_of orders =
     sort_key (\<lambda>i. date (orders ! i))
       (filter (\<lambda>i. order_type (orders ! i) = ''sell'') [0..<length orders])"

text \<open>The test of the candidate loop for the sell at index \<open>s\<close> and the buy at index \<open>b\<close>.\<close>

definition candidate_ok :: "Trade list \<Rightarrow> nat \<Rightarrow> nat \<Rightarrow> bool" where
  "candidate_ok orders s b \<longleftrightarrow>
     ticker (orders ! s) = ticker (orders ! b) \<and>
     qty (orders ! s) > 0 \<and>
     qty (orders ! b) > 0 \<and>
     date (orders ! b) \<le> date (orders ! s)"

definition all_matches :: "Trade list \<Rightarrow> Match list" where
  "all_matches orders =
     concat (map (\<lambda>s.
       concat (map (\<lambda>b.
         if candidate_ok orders s b
         then [Match_init orders b s (min (qty (orders ! s)) (qty (orders ! b)))]
         else [])
       (buys_of orders)))
     (sells_of orders))"

text \<open>The state of the selection loop: the arena, \<^verbatim>\<open>result\<close>, \<^verbatim>\<open>used_buy\<close>, \<^verbatim>\<open>used_sell\<close>.\<close>

record sel_state =
  trades :: "Trade list"
  result :: "Match list"
  used_buy :: "nat set"
  used_sell :: "nat set"

text \<open>The body of \<^verbatim>\<open>for m in sorted(all_matches, ...)\<close>.\<close>

definition select_step :: "Match \<Rightarrow> sel_state \<Rightarrow> sel_state" where
  "select_step m st =
     (if buy m \<in> used_buy st \<or> sell m \<in> used_sell st then st
      else
        (let ts = trades st;
             q = min (qty (ts ! buy m)) (qty (ts ! sell m));
             match = Match_init ts (buy m) (sell m) q;
             ts1 = ts[buy m := (ts ! buy m)\<lparr>qty := qty (ts ! buy m) - q\<rparr>];
             ts2 = ts1[sell m := (ts1 ! sell m)\<lparr>qty := qty (ts1 ! sell m) - q\<rparr>]
         in \<lparr>trades = ts2, result = result st @ [match],
             used_buy = insert (buy m) (used_buy st),
             used_sell = insert (sell m) (used_sell st)\<rparr>))"

definition sel_init :: "Trade list \<Rightarrow> sel_state" where
  "sel_init orders = \<lparr>trades = orders, result = [], used_buy = {}, used_sell = {}\<rparr>"

text \<open>The selection loop run over a given order of the candidates.\<close>

definition select_all :: "Match list \<Rightarrow> Trade list \<Rightarrow> sel_state" where
  "select_all cands orders = fold select_step cands (sel_init orders)"

text \<open>
  \<^verbatim>\<open>sorted(all_matches, key=lambda m: -strategy_func([m]))\<close>: a stable sort on the negated
  score of the singleton list.
\<close>

definition sorted_matches :: "Trade list \<Rightarrow> (Match list \<Rightarrow> real) \<Rightarrow> Match list" where
  "sorted_matches orders strategy_func =
     sort_key (\<lambda>m. - strategy_func [m]) (all_matches orders)"

text \<open>
  \<^verbatim>\<open>generate_matches\<close>. It returns \<^verbatim>\<open>result\<close>; the second component is the arena after the
  run, that is the effect of the run on the Trade objects.
\<close>

definition generate_matches :: "Trade list \<Rightarrow> (Match list \<Rightarrow> real) \<Rightarrow> Match list \<times> Trade list" where
  "generate_matches orders strategy_func =
     (let st = select_all (sorted_matches orders strategy_func) orders
      in (result st, trades st))"

section \<open>Entry points\<close>

text \<open>
  \<^verbatim>\<open>process\<close> of \<^verbatim>\<open>app.py\<close> from the parsed rows to the Match list it writes out. The form
  field is \<open>None\<close> when absent; \<^verbatim>\<open>strategy or "1"\<close> also replaces the empty string.
\<close>

definition resolve_strategy :: "string option \<Rightarrow> string" where
  "resolve_strategy strategy =
     (let s = (case strategy of None \<Rightarrow> ''1'' | Some k \<Rightarrow> if k = [] then ''1'' else k)
      in if strategy_map s = None then ''1'' else s)"

definition process :: "raw_record list \<Rightarrow> string option \<Rightarrow> py_error + Match list" where
  "process records strategy =
     (let orders = load_orders records in
      case strategy_map (resolve_strategy strategy) of
        None \<Rightarrow> Inl KeyError
      | Some strategy_func \<Rightarrow> Inr (fst (generate_matches orders strategy_func)))"

text \<open>
  \<^verbatim>\<open>main\<close> of \<^verbatim>\<open>orders.py\<close> up to the first \<^verbatim>\<open>print_match_summary\<close>; \<open>selected\<close> is the
  stripped input line. An exception of \<^verbatim>\<open>load_orders\<close> is caught there and ends the run
  without matches; it is the \<open>Inl\<close> result.
\<close>

definition resolve_selected :: "string \<Rightarrow> string" where
  "resolve_selected selected = (if strategy_map selected = None then ''1'' else selected)"

definition main_orders :: "raw_record list \<Rightarrow> string \<Rightarrow> py_error + Match list" where
  "main_orders records selected =
     (case load_orders_orders records of
        Inl e \<Rightarrow> Inl e
      | Inr orders \<Rightarrow>
          (case strategy_map (resolve_selected selected) of
             None \<Rightarrow> Inl KeyError
           | Some strategy_func \<Rightarrow> Inr (fst (generate_matches orders strategy_func))))"

section \<open>Predicates used in the proofs\<close>

text \<open>
  What the candidate loop guarantees of every Match it appends, and the invariant of the
  selection loop with respect to the arena \<open>orders\<close> the run started from.
\<close>

definition is_candidate :: "Trade list \<Rightarrow> Match \<Rightarrow> bool" where
  "is_candidate orders m \<longleftrightarrow>
     buy m < length orders \<and> sell m < length orders \<and>
     order_type (orders ! buy m) = ''buy'' \<and> order_type (orders ! sell m) = ''sell'' \<and>
     candidate_ok orders (sell m) (buy m)"

definition sel_inv :: "Trade list \<Rightarrow> sel_state \<Rightarrow> bool" where
  "sel_inv orders st \<longleftrightarrow>
     length (trades st) = length orders \<and>
     (\<forall>i < length orders. (trades st ! i)\<lparr>qty := qty (orders ! i)\<rparr> = orders ! i) \<and>
     (\<forall>i < length orders. i \<notin> used_buy st \<and> i \<notin> used_sell st \<longrightarrow> qty (trades st ! i) = qty (orders ! i)) \<and>
     (\<forall>i < length orders. qty (trades st ! i) \<le> qty (orders ! i) \<and>
         (0 \<le> qty (orders ! i) \<longrightarrow> 0 \<le> qty (trades st ! i))) \<and>
     used_buy st = buy ` set (result st) \<and>
     used_sell st = sell ` set (result st) \<and>
     distinct (map buy (result st)) \<and>
     distinct (map sell (result st)) \<and>
     (\<forall>m \<in> set (result st). is_candidate orders m)"

section \<open>Predicates and observers of the wash-sale pass\<close>

text \<open>
  \<open>eligible\<close> is the outer test of the scan (the lot is 1 to 30 days older than the sell
  and not yet adjusted); \<open>adjustable\<close> adds the inner test \<^verbatim>\<open>loss_per_unit > 0\<close>.
  \<open>adjusted_lot\<close> and \<open>adjustment_event\<close> name what the adjusting branch writes to the lot
  and appends to \<^verbatim>\<open>wash_sales\<close>.
\<close>

definition eligible :: "int \<Rightarrow> lot \<Rightarrow> bool" where
  "eligible d b \<longleftrightarrow> 0 < d - l_date b \<and> d - l_date b \<le> 30 \<and> \<not> l_adjusted b"

definition adjustable :: "int \<Rightarrow> real \<Rightarrow> lot \<Rightarrow> bool" where
  "adjustable d p b \<longleftrightarrow> eligible d b \<and> l_price b - p > 0"

definition adjusted_lot :: "real \<Rightarrow> lot \<Rightarrow> lot" where
  "adjusted_lot p b =
     b\<lparr>l_price := l_price b + (l_price b - p),
       l_orig_total := l_orig_total b + (l_price b - p) * real_of_int (l_qty b),
       l_adjusted := True\<rparr>"

definition adjustment_event :: "string \<Rightarrow> int \<Rightarrow> real \<Rightarrow> lot \<Rightarrow> wash_sale" where
  "adjustment_event tk d p b =
     \<lparr>ws_ticker = tk, ws_sell_date = d, ws_buy_date = l_date b,
      ws_adjustment_per_unit = l_price b - p, ws_qty = l_qty b,
      ws_total_adjustment = (l_price b - p) * real_of_int (l_qty b),
      ws_old_price = l_price b, ws_new_price = l_price b + (l_price b - p)\<rparr>"

text \<open>
  The number of records of \<open>rs\<close> whose processing changes the lot at position \<open>i\<close> of ticker
  \<open>tk\<close>, counted along the run of the pass from the state \<open>st\<close>.
\<close>

fun adjust_count :: "string \<Rightarrow> nat \<Rightarrow> raw_record list \<Rightarrow> wstate \<Rightarrow> nat" where
  "adjust_count tk i [] st = 0"
| "adjust_count tk i (r # rs) st =
     (if i < length (fst st tk) \<and> fst (process_record r st) tk ! i \<noteq> fst st tk ! i then 1 else 0)
       + adjust_count tk i rs (process_record r st)"

section \<open>Concrete inputs\<close>

text \<open>
  One buy of 10 units and two later sells of 5 units each, all of ticker X; and a single
  buy row whose quantity is negative (\<^verbatim>\<open>int(row['qty'])\<close> accepts a sign).
\<close>

definition example_records :: "raw_record list" where
  "example_records =
    [\<lparr>r_date = 0, r_type = ''buy'', r_ticker = ''X'', r_total_amount = 100, r_qty = 10\<rparr>,
     \<lparr>r_date = 5, r_type = ''sell'', r_ticker = ''X'', r_total_amount = 60, r_qty = 5\<rparr>,
     \<lparr>r_date = 6, r_type = ''sell'', r_ticker = ''X'', r_total_amount = 70, r_qty = 5\<rparr>]"

definition example_orders :: "Trade list" where
  "example_orders = load_orders example_records"

definition negative_qty_orders :: "Trade list" where
  "negative_qty_orders =
     load_orders [\<lparr>r_date = 0, r_type = ''buy'', r_ticker = ''X'', r_total_amount = 100, r_qty = - 5\<rparr>]"

text \<open>
  Two buys of ticker A followed by a sell 10 and 9 days later: the older lot was bought
  below the sell price, the newer one above it. \<open>later_sell\<close> is a second sell at a loss.
\<close>

definition c1_records :: "raw_record list" where
  "c1_records =
    [\<lparr>r_date = 0, r_type = ''buy'', r_ticker = ''A'', r_total_amount = 50, r_qty = 10\<rparr>,
     \<lparr>r_date = 1, r_type = ''buy'', r_ticker = ''A'', r_total_amount = 200, r_qty = 10\<rparr>,
     \<lparr>r_date = 10, r_type = ''sell'', r_ticker = ''A'', r_total_amount = 100, r_qty = 10\<rparr>]"

definition later_sell :: raw_record where
  "later_sell = \<lparr>r_date = 12, r_type = ''sell'', r_ticker = ''A'', r_total_amount = 50, r_qty = 10\<rparr>"

text \<open>A row with quantity 0.\<close>

definition zero_qty_record :: raw_record where
  "zero_qty_record = \<lparr>r_date = 0, r_type = ''buy'', r_ticker = ''X'', r_total_amount = 100, r_qty = 0\<rparr>"

section \<open>Properties of the objective functions\<close>

text \<open>
  C9. On every list of Matches objective 2 (\<open>objective_loss\<close>) is the negation of objective
  1 (\<open>objective_profit\<close>), and objective 7 (\<open>objective_minimal_loss\<close>) is never negative.
\<close>

theorem objective_loss_negates_profit_and_minimal_loss_nonneg:
  "objective_loss matches = - objective_profit matches \<and> 0 \<le> objective_minimal_loss matches"
  by (simp add: objective_loss_def objective_profit_def objective_minimal_loss_def)

section \<open>The selection loop keeps its invariant\<close>

lemma set_buys_of: "set (buys_of orders) = {i. i < length orders \<and> order_type (orders ! i) = ''buy''}"
  by (auto simp: buys_of_def)

lemma set_sells_of: "set (sells_of orders) = {i. i < length orders \<and> order_type (orders ! i) = ''sell''}"
  by (auto simp: sells_of_def)

lemma buy_Match_init: "buy (Match_init ts b s q) = b"
  by (simp add: Match_init_def)

lemma sell_Match_init: "sell (Match_init ts b s q) = s"
  by (simp add: Match_init_def)

lemma all_matches_candidate:
  assumes "m \<in> set (all_matches orders)"
  shows "is_candidate orders m"
proof -
  from assms obtain s b where sb: "s \<in> set (sells_of orders)" "b \<in> set (buys_of orders)"
    "candidate_ok orders s b"
    "m = Match_init orders b s (min (qty (orders ! s)) (qty (orders ! b)))"
    by (auto simp: all_matches_def split: if_splits)
  then show ?thesis
    by (simp add: is_candidate_def set_buys_of set_sells_of buy_Match_init sell_Match_init)
qed

lemma sel_inv_init: "sel_inv orders (sel_init orders)"
  by (simp add: sel_inv_def sel_init_def)

lemma select_step_skip:
  "buy m \<in> used_buy st \<or> sell m \<in> used_sell st \<Longrightarrow> select_step m st = st"
  by (simp add: select_step_def)

lemma select_step_take:
  assumes "buy m \<notin> used_buy st" "sell m \<notin> used_sell st" "buy m \<noteq> sell m"
    "buy m < length (trades st)" "sell m < length (trades st)"
  shows "select_step m st =
     \<lparr>trades = (trades st)
         [buy m := (trades st ! buy m)\<lparr>qty := qty (trades st ! buy m) -
             min (qty (trades st ! buy m)) (qty (trades st ! sell m))\<rparr>,
          sell m := (trades st ! sell m)\<lparr>qty := qty (trades st ! sell m) -
             min (qty (trades st ! buy m)) (qty (trades st ! sell m))\<rparr>],
       result = result st @ [Match_init (trades st) (buy m) (sell m)
                          (min (qty (trades st ! buy m)) (qty (trades st ! sell m)))],
       used_buy = insert (buy m) (used_buy st),
       used_sell = insert (sell m) (used_sell st)\<rparr>"
  using assms by (simp add: select_step_def Let_def)


lemma select_step_inv:
  assumes inv: "sel_inv orders st" and cand: "is_candidate orders m"
  shows "sel_inv orders (select_step m st)"
proof (cases "buy m \<in> used_buy st \<or> sell m \<in> used_sell st")
  case True
  then show ?thesis using inv by (simp add: select_step_skip)
next
  case False
  have nb: "buy m \<notin> used_buy st" and ns: "sell m \<notin> used_sell st"
    using False by simp_all
  have bn: "buy m < length orders" and sn: "sell m < length orders"
    and tb: "order_type (orders ! buy m) = ''buy''"
    and tsell: "order_type (orders ! sell m) = ''sell''"
    and ok: "candidate_ok orders (sell m) (buy m)"
    using cand by (simp_all add: is_candidate_def)
  have bs: "buy m \<noteq> sell m" using tb tsell by auto
  have len: "length (trades st) = length orders" using inv by (simp add: sel_inv_def)
  have resc: "\<forall>x \<in> set (result st). is_candidate orders x"
    using inv by (simp add: sel_inv_def)
  have ub: "used_buy st = buy ` set (result st)"
    and us: "used_sell st = sell ` set (result st)"
    and db: "distinct (map buy (result st))"
    and ds: "distinct (map sell (result st))"
    using inv by (simp_all add: sel_inv_def)
  have b_nus: "buy m \<notin> used_sell st"
  proof
    assume "buy m \<in> used_sell st"
    then obtain x where "x \<in> set (result st)" "buy m = sell x" using us by auto
    with resc have "order_type (orders ! buy m) = ''sell''" by (auto simp: is_candidate_def)
    with tb show False by simp
  qed
  have s_nub: "sell m \<notin> used_buy st"
  proof
    assume "sell m \<in> used_buy st"
    then obtain x where "x \<in> set (result st)" "sell m = buy x" using ub by auto
    with resc have "order_type (orders ! sell m) = ''buy''" by (auto simp: is_candidate_def)
    with tsell show False by simp
  qed
  have unch: "\<And>i. i < length orders \<Longrightarrow> i \<notin> used_buy st \<Longrightarrow> i \<notin> used_sell st
      \<Longrightarrow> qty (trades st ! i) = qty (orders ! i)"
    using inv by (simp add: sel_inv_def)
  have frame: "\<And>i. i < length orders \<Longrightarrow> (trades st ! i)\<lparr>qty := qty (orders ! i)\<rparr> = orders ! i"
    using inv by (simp add: sel_inv_def)
  have bnd: "\<And>i. i < length orders \<Longrightarrow> qty (trades st ! i) \<le> qty (orders ! i) \<and>
      (0 \<le> qty (orders ! i) \<longrightarrow> 0 \<le> qty (trades st ! i))"
    using inv by (simp add: sel_inv_def)
  have qb: "qty (trades st ! buy m) = qty (orders ! buy m)" using unch bn nb b_nus by simp
  have qs: "qty (trades st ! sell m) = qty (orders ! sell m)" using unch sn ns s_nub by simp
  have pos: "0 < qty (orders ! buy m)" "0 < qty (orders ! sell m)"
    using ok by (simp_all add: candidate_ok_def)
  define q where "q = min (qty (orders ! buy m)) (qty (orders ! sell m))"
  have q_pos: "0 < q" and q_le: "q \<le> qty (orders ! buy m)" "q \<le> qty (orders ! sell m)"
    using pos by (simp_all add: q_def)
  define ts' where "ts' = (trades st)
         [buy m := (trades st ! buy m)\<lparr>qty := qty (orders ! buy m) - q\<rparr>,
          sell m := (trades st ! sell m)\<lparr>qty := qty (orders ! sell m) - q\<rparr>]"
  define mt where "mt = Match_init (trades st) (buy m) (sell m) q"
  have step: "select_step m st =
     \<lparr>trades = ts', result = result st @ [mt],
       used_buy = insert (buy m) (used_buy st), used_sell = insert (sell m) (used_sell st)\<rparr>"
    using select_step_take[OF nb ns bs] bn sn len
    by (simp add: qb qs ts'_def mt_def q_def)
  have mt_b: "buy mt = buy m" and mt_s: "sell mt = sell m"
    by (simp_all add: mt_def buy_Match_init sell_Match_init)
  have nth': "\<And>i. i < length orders \<Longrightarrow> ts' ! i =
      (if i = sell m then (trades st ! sell m)\<lparr>qty := qty (orders ! sell m) - q\<rparr>
       else if i = buy m then (trades st ! buy m)\<lparr>qty := qty (orders ! buy m) - q\<rparr>
       else trades st ! i)"
    using len bn sn by (simp add: ts'_def nth_list_update)
  have c1: "length ts' = length orders" using len by (simp add: ts'_def)
  have c2: "\<forall>i < length orders. (ts' ! i)\<lparr>qty := qty (orders ! i)\<rparr> = orders ! i"
    using frame by (simp add: nth')
  have c3: "\<forall>i < length orders. i \<notin> insert (buy m) (used_buy st) \<and> i \<notin> insert (sell m) (used_sell st)
      \<longrightarrow> qty (ts' ! i) = qty (orders ! i)"
    using unch by (simp add: nth')
  have c4: "\<forall>i < length orders. qty (ts' ! i) \<le> qty (orders ! i) \<and>
         (0 \<le> qty (orders ! i) \<longrightarrow> 0 \<le> qty (ts' ! i))"
  proof (intro allI impI)
    fix i assume i: "i < length orders"
    show "qty (ts' ! i) \<le> qty (orders ! i) \<and> (0 \<le> qty (orders ! i) \<longrightarrow> 0 \<le> qty (ts' ! i))"
      using bnd[OF i] q_pos q_le by (simp add: nth'[OF i])
  qed
  have c5: "insert (buy m) (used_buy st) = buy ` set (result st @ [mt])"
    using ub mt_b by auto
  have c6: "insert (sell m) (used_sell st) = sell ` set (result st @ [mt])"
    using us mt_s by auto
  have c7: "distinct (map buy (result st @ [mt]))"
    using db nb ub mt_b by simp
  have c8: "distinct (map sell (result st @ [mt]))"
    using ds ns us mt_s by simp
  have mtc: "is_candidate orders mt"
    using bn sn tb tsell ok by (simp add: is_candidate_def mt_b mt_s)
  have c9: "\<forall>x \<in> set (result st @ [mt]). is_candidate orders x"
    using resc mtc by simp
  show ?thesis
    unfolding sel_inv_def step
    using c1 c2 c3 c4 c5 c6 c7 c8 c9 by simp
qed

lemma fold_select_step_inv:
  assumes "sel_inv orders st" "\<forall>m \<in> set cs. is_candidate orders m"
  shows "sel_inv orders (fold select_step cs st)"
  using assms
proof (induction cs arbitrary: st)
  case Nil
  then show ?case by simp
next
  case (Cons c cs)
  then show ?case by (simp add: select_step_inv)
qed

lemma select_all_inv:
  assumes "set cs \<subseteq> set (all_matches orders)"
  shows "sel_inv orders (select_all cs orders)"
  unfolding select_all_def
  using assms by (intro fold_select_step_inv sel_inv_init) (auto dest: all_matches_candidate)

lemma generate_matches_sel_inv:
  "\<exists>st. sel_inv orders st \<and> generate_matches orders f = (result st, trades st)"
proof -
  define st where "st = select_all (sorted_matches orders f) orders"
  have "sel_inv orders st"
    unfolding st_def by (rule select_all_inv) (simp add: sorted_matches_def)
  moreover have "generate_matches orders f = (result st, trades st)"
    by (simp add: generate_matches_def st_def Let_def)
  ultimately show ?thesis by blast
qed

section \<open>Properties of the matching engine\<close>

text \<open>
  C3. In the Match list returned by \<open>generate_matches\<close>, for every list of Trades and every
  objective function, no Buy Trade and no Sell Trade occurs in more than one Match: the
  buy references are pairwise distinct, so are the sell references, and no Trade is the buy
  of one Match and the sell of another. In the example the buy keeps 5 of its 10 units and
  is still in one Match only.
\<close>

theorem no_trade_in_two_matches:
  "distinct (map buy (fst (generate_matches orders f))) \<and>
   distinct (map sell (fst (generate_matches orders f))) \<and>
   buy ` set (fst (generate_matches orders f)) \<inter> sell ` set (fst (generate_matches orders f)) = {}"
proof -
  obtain st where inv: "sel_inv orders st" and g: "generate_matches orders f = (result st, trades st)"
    using generate_matches_sel_inv by blast
  have d: "distinct (map buy (result st))" "distinct (map sell (result st))"
    and c: "\<forall>m \<in> set (result st). is_candidate orders m"
    using inv by (simp_all add: sel_inv_def)
  have "buy x \<noteq> sell y" if "x \<in> set (result st)" "y \<in> set (result st)" for x y
  proof
    assume e: "buy x = sell y"
    have "order_type (orders ! buy x) = ''buy''" "order_type (orders ! sell y) = ''sell''"
      using c that by (simp_all add: is_candidate_def)
    with e show False by simp
  qed
  then have "buy ` set (result st) \<inter> sell ` set (result st) = {}" by auto
  with d show ?thesis by (simp add: g)
qed

theorem no_trade_in_two_matches_witness:
  "fst (generate_matches example_orders objective_profit) =
     [\<lparr>buy = 0, sell = 2, m_qty = 5, profit = 20, holding_period_days = 6, is_wash_sale = False\<rparr>] \<and>
   qty (snd (generate_matches example_orders objective_profit) ! 0) = 5 \<and>
   distinct (map buy (fst (generate_matches example_orders objective_profit))) \<and>
   distinct (map sell (fst (generate_matches example_orders objective_profit))) \<and>
   buy ` set (fst (generate_matches example_orders objective_profit)) \<inter>
     sell ` set (fst (generate_matches example_orders objective_profit)) = {}"
proof -
  have a: "fst (generate_matches example_orders objective_profit) =
     [\<lparr>buy = 0, sell = 2, m_qty = 5, profit = 20, holding_period_days = 6, is_wash_sale = False\<rparr>]"
    by code_simp
  have b: "qty (snd (generate_matches example_orders objective_profit) ! 0) = 5"
    by code_simp
  show ?thesis
    using a b no_trade_in_two_matches [of example_orders objective_profit] by blast
qed

text \<open>
  C8. Every Match returned by \<open>generate_matches\<close> pairs a Trade of type buy with a Trade of
  type sell of the same ticker, and the buy's date is not after the sell's date.
\<close>

theorem matches_buy_not_after_sell:
  assumes "m \<in> set (fst (generate_matches orders f))"
  shows "buy m < length orders \<and> sell m < length orders \<and>
         order_type (orders ! buy m) = ''buy'' \<and> order_type (orders ! sell m) = ''sell'' \<and>
         date (orders ! buy m) \<le> date (orders ! sell m) \<and>
         ticker (orders ! buy m) = ticker (orders ! sell m)"
proof -
  obtain st where inv: "sel_inv orders st" and g: "generate_matches orders f = (result st, trades st)"
    using generate_matches_sel_inv by blast
  have "is_candidate orders m" using inv assms by (simp add: sel_inv_def g)
  then show ?thesis by (simp add: is_candidate_def candidate_ok_def)
qed

theorem matches_buy_not_after_sell_witness:
  "\<lparr>buy = 0, sell = 2, m_qty = 5, profit = 20, holding_period_days = 6, is_wash_sale = False\<rparr>
     \<in> set (fst (generate_matches example_orders objective_profit)) \<and>
   (0::nat) < length example_orders \<and> (2::nat) < length example_orders \<and>
   order_type (example_orders ! 0) = ''buy'' \<and> order_type (example_orders ! 2) = ''sell'' \<and>
   date (example_orders ! 0) \<le> date (example_orders ! 2) \<and>
   ticker (example_orders ! 0) = ticker (example_orders ! 2)"
proof -
  have h: "\<lparr>buy = 0, sell = 2, m_qty = 5, profit = 20, holding_period_days = 6, is_wash_sale = False\<rparr>
     \<in> set (fst (generate_matches example_orders objective_profit))"
    by code_simp
  show ?thesis
    using h matches_buy_not_after_sell [OF h] by simp
qed

text \<open>
  C10. A run of \<open>generate_matches\<close> changes nothing but the field \<open>qty\<close>: the arena keeps its
  length, every Trade keeps its date, order type, ticker, unit price, total amount, original
  quantity (and \<open>matched_qty\<close>), and a Trade that is in no returned Match is left as it was,
  \<open>qty\<close> included.
\<close>

theorem generate_matches_frame:
  assumes "i < length orders"
  shows "length (snd (generate_matches orders f)) = length orders \<and>
         date (snd (generate_matches orders f) ! i) = date (orders ! i) \<and>
         order_type (snd (generate_matches orders f) ! i) = order_type (orders ! i) \<and>
         ticker (snd (generate_matches orders f) ! i) = ticker (orders ! i) \<and>
         price (snd (generate_matches orders f) ! i) = price (orders ! i) \<and>
         total_amount (snd (generate_matches orders f) ! i) = total_amount (orders ! i) \<and>
         original_qty (snd (generate_matches orders f) ! i) = original_qty (orders ! i) \<and>
         matched_qty (snd (generate_matches orders f) ! i) = matched_qty (orders ! i) \<and>
         (i \<notin> buy ` set (fst (generate_matches orders f)) \<and>
          i \<notin> sell ` set (fst (generate_matches orders f)) \<longrightarrow>
            snd (generate_matches orders f) ! i = orders ! i)"
proof -
  obtain st where inv: "sel_inv orders st" and g: "generate_matches orders f = (result st, trades st)"
    using generate_matches_sel_inv by blast
  have len: "length (trades st) = length orders" using inv by (simp add: sel_inv_def)
  have fr: "(trades st ! i)\<lparr>qty := qty (orders ! i)\<rparr> = orders ! i"
    using inv assms by (simp add: sel_inv_def)
  have un: "i \<notin> buy ` set (result st) \<and> i \<notin> sell ` set (result st)
      \<longrightarrow> qty (trades st ! i) = qty (orders ! i)"
    using inv assms by (simp add: sel_inv_def)
  have f1: "date (trades st ! i) = date (orders ! i)"
    using arg_cong[OF fr, of date] by simp
  have f2: "order_type (trades st ! i) = order_type (orders ! i)"
    using arg_cong[OF fr, of order_type] by simp
  have f3: "ticker (trades st ! i) = ticker (orders ! i)"
    using arg_cong[OF fr, of ticker] by simp
  have f4: "price (trades st ! i) = price (orders ! i)"
    using arg_cong[OF fr, of price] by simp
  have f5: "total_amount (trades st ! i) = total_amount (orders ! i)"
    using arg_cong[OF fr, of total_amount] by simp
  have f6: "original_qty (trades st ! i) = original_qty (orders ! i)"
    using arg_cong[OF fr, of original_qty] by simp
  have f7: "matched_qty (trades st ! i) = matched_qty (orders ! i)"
    using arg_cong[OF fr, of matched_qty] by simp
  have f8: "i \<notin> buy ` set (result st) \<and> i \<notin> sell ` set (result st)
      \<longrightarrow> trades st ! i = orders ! i"
  proof
    assume "i \<notin> buy ` set (result st) \<and> i \<notin> sell ` set (result st)"
    with un have "qty (trades st ! i) = qty (orders ! i)" by simp
    then have "(trades st ! i)\<lparr>qty := qty (orders ! i)\<rparr> = trades st ! i" by simp
    with fr show "trades st ! i = orders ! i" by simp
  qed
  show ?thesis
    unfolding g fst_conv snd_conv
    using len f1 f2 f3 f4 f5 f6 f7 f8 by blast
qed

theorem generate_matches_frame_witness:
  "(1::nat) < length example_orders \<and>
   1 \<notin> buy ` set (fst (generate_matches example_orders objective_profit)) \<and>
   1 \<notin> sell ` set (fst (generate_matches example_orders objective_profit)) \<and>
   length (snd (generate_matches example_orders objective_profit)) = length example_orders \<and>
   original_qty (snd (generate_matches example_orders objective_profit) ! 1)
     = original_qty (example_orders ! 1) \<and>
   snd (generate_matches example_orders objective_profit) ! 1 = example_orders ! 1"
proof -
  have h: "(1::nat) < length example_orders" by code_simp
  have n1: "1 \<notin> buy ` set (fst (generate_matches example_orders objective_profit))" by code_simp
  have n2: "1 \<notin> sell ` set (fst (generate_matches example_orders objective_profit))" by code_simp
  show ?thesis
    using h n1 n2 generate_matches_frame [OF h, of objective_profit] by blast
qed

text \<open>
  C4, as amended. For a Trade whose remaining quantity equals its original quantity before
  the run, after the run the remaining quantity is at most the original quantity, and it is
  not negative provided the original quantity is not negative.
\<close>

theorem remaining_qty_bounds:
  assumes "i < length orders" and "qty (orders ! i) = original_qty (orders ! i)"
  shows "qty (snd (generate_matches orders f) ! i) \<le> original_qty (snd (generate_matches orders f) ! i) \<and>
         (0 \<le> original_qty (orders ! i) \<longrightarrow> 0 \<le> qty (snd (generate_matches orders f) ! i))"
proof -
  obtain st where inv: "sel_inv orders st" and g: "generate_matches orders f = (result st, trades st)"
    using generate_matches_sel_inv by blast
  have fr: "(trades st ! i)\<lparr>qty := qty (orders ! i)\<rparr> = orders ! i"
    using inv assms(1) by (simp add: sel_inv_def)
  have oq: "original_qty (trades st ! i) = original_qty (orders ! i)"
    using arg_cong[OF fr, of original_qty] by simp
  have bnd: "qty (trades st ! i) \<le> qty (orders ! i) \<and>
      (0 \<le> qty (orders ! i) \<longrightarrow> 0 \<le> qty (trades st ! i))"
    using inv assms(1) by (simp add: sel_inv_def)
  show ?thesis
    unfolding g snd_conv using bnd oq assms(2) by simp
qed

theorem remaining_qty_bounds_witness:
  "(0::nat) < length example_orders \<and>
   qty (example_orders ! 0) = original_qty (example_orders ! 0) \<and>
   0 \<le> original_qty (example_orders ! 0) \<and>
   qty (snd (generate_matches example_orders objective_profit) ! 0)
     \<le> original_qty (snd (generate_matches example_orders objective_profit) ! 0) \<and>
   0 \<le> qty (snd (generate_matches example_orders objective_profit) ! 0)"
proof -
  have h1: "(0::nat) < length example_orders" by code_simp
  have h2: "qty (example_orders ! 0) = original_qty (example_orders ! 0)" by code_simp
  have h3: "0 \<le> original_qty (example_orders ! 0)" by code_simp
  show ?thesis
    using h1 h2 h3 remaining_qty_bounds [OF h1 h2, of objective_profit] by blast
qed

text \<open>
  C4 as stated fails: a row with a negative quantity becomes a Trade whose remaining
  quantity equals its original quantity; it is never a candidate, so after the run its
  remaining quantity is still negative.
\<close>

theorem remaining_qty_negative_counterexample:
  "qty (negative_qty_orders ! 0) = original_qty (negative_qty_orders ! 0) \<and>
   \<not> (0 \<le> qty (snd (generate_matches negative_qty_orders objective_profit) ! 0) \<and>
      qty (snd (generate_matches negative_qty_orders objective_profit) ! 0)
        \<le> original_qty (snd (generate_matches negative_qty_orders objective_profit) ! 0))"
  by code_simp


section \<open>Properties of the wash-sale pass\<close>

lemma scan_lots_Cons:
  "scan_lots tk d p (b # bs) =
     (if adjustable d p b then (adjusted_lot p b # bs, [adjustment_event tk d p b])
      else (b # fst (scan_lots tk d p bs), snd (scan_lots tk d p bs)))"
  by (simp add: adjustable_def eligible_def adjusted_lot_def adjustment_event_def Let_def
      split: prod.split)

declare scan_lots.simps(2) [simp del]

text \<open>
  C1, as amended. For one sell, the scan of the ticker's lots stops at the first lot that is
  1 to 30 days older than the sell, not yet adjusted, and priced above the sell price: that
  lot is adjusted and one entry is appended to \<^verbatim>\<open>wash_sales\<close>; the lots before it and after
  it are left as they are. A lot that passes the age and flag test but has
  \<^verbatim>\<open>loss_per_unit <= 0\<close> does not stop the scan. When no lot qualifies nothing changes.
\<close>

theorem scan_lots_stops_at_first_loss_lot:
  "scan_lots tk d p bs =
     (case dropWhile (\<lambda>b. \<not> adjustable d p b) bs of
        [] \<Rightarrow> (bs, [])
      | b # rest \<Rightarrow>
          (takeWhile (\<lambda>b. \<not> adjustable d p b) bs @ adjusted_lot p b # rest,
           [adjustment_event tk d p b]))"
proof (induction bs)
  case Nil
  show ?case by simp
next
  case (Cons a bs)
  show ?case
  proof (cases "adjustable d p a")
    case True
    then show ?thesis by (simp add: scan_lots_Cons)
  next
    case False
    note IH = Cons.IH
    show ?thesis
    proof (cases "dropWhile (\<lambda>b. \<not> adjustable d p b) bs")
      case Nil
      with False IH show ?thesis
        by (simp add: scan_lots_Cons del: dropWhile_eq_Nil_conv)
    next
      case (Cons x xs)
      with False IH show ?thesis
        by (simp add: scan_lots_Cons del: dropWhile_eq_Nil_conv)
    qed
  qed
qed

theorem scan_lots_stops_at_first_loss_lot_witness:
  "scan_lots ''A'' 10 10
     [\<lparr>l_date = 0, l_ticker = ''A'', l_qty = 10, l_price = 5, l_orig_total = 50, l_adjusted = False\<rparr>,
      \<lparr>l_date = 1, l_ticker = ''A'', l_qty = 10, l_price = 20, l_orig_total = 200, l_adjusted = False\<rparr>,
      \<lparr>l_date = 2, l_ticker = ''A'', l_qty = 10, l_price = 40, l_orig_total = 400, l_adjusted = False\<rparr>]
   = ([\<lparr>l_date = 0, l_ticker = ''A'', l_qty = 10, l_price = 5, l_orig_total = 50, l_adjusted = False\<rparr>,
       \<lparr>l_date = 1, l_ticker = ''A'', l_qty = 10, l_price = 30, l_orig_total = 300, l_adjusted = True\<rparr>,
       \<lparr>l_date = 2, l_ticker = ''A'', l_qty = 10, l_price = 40, l_orig_total = 400, l_adjusted = False\<rparr>],
      [\<lparr>ws_ticker = ''A'', ws_sell_date = 10, ws_buy_date = 1, ws_adjustment_per_unit = 10,
        ws_qty = 10, ws_total_adjustment = 100, ws_old_price = 20, ws_new_price = 30\<rparr>])"
  using scan_lots_stops_at_first_loss_lot [of "''A''" 10 10
     "[\<lparr>l_date = 0, l_ticker = ''A'', l_qty = 10, l_price = 5, l_orig_total = 50, l_adjusted = False\<rparr>,
      \<lparr>l_date = 1, l_ticker = ''A'', l_qty = 10, l_price = 20, l_orig_total = 200, l_adjusted = False\<rparr>,
      \<lparr>l_date = 2, l_ticker = ''A'', l_qty = 10, l_price = 40, l_orig_total = 400, l_adjusted = False\<rparr>]"]
  by (simp add: adjustable_def eligible_def adjusted_lot_def adjustment_event_def)

text \<open>
  C1 as stated fails. Before the sell the lots of A are the two below; the first is
  eligible and its loss per unit is \<open>5 - 10 \<le> 0\<close>; yet the sell adjusts the second lot.
\<close>

theorem scan_passes_first_eligible_lot_counterexample:
  "fst (wash_pass (take 2 c1_records) wash_init) ''A'' =
     [\<lparr>l_date = 0, l_ticker = ''A'', l_qty = 10, l_price = 5, l_orig_total = 50, l_adjusted = False\<rparr>,
      \<lparr>l_date = 1, l_ticker = ''A'', l_qty = 10, l_price = 20, l_orig_total = 200, l_adjusted = False\<rparr>] \<and>
   c1_records ! 2 = \<lparr>r_date = 10, r_type = ''sell'', r_ticker = ''A'', r_total_amount = 100, r_qty = 10\<rparr> \<and>
   eligible 10 \<lparr>l_date = 0, l_ticker = ''A'', l_qty = 10, l_price = 5, l_orig_total = 50, l_adjusted = False\<rparr> \<and>
   (5::real) - 100 / 10 \<le> 0 \<and>
   apply_wash_sale c1_records =
     [\<lparr>ws_ticker = ''A'', ws_sell_date = 10, ws_buy_date = 1, ws_adjustment_per_unit = 10,
       ws_qty = 10, ws_total_adjustment = 100, ws_old_price = 20, ws_new_price = 30\<rparr>] \<and>
   fst (wash_pass c1_records wash_init) ''A'' =
     [\<lparr>l_date = 0, l_ticker = ''A'', l_qty = 10, l_price = 5, l_orig_total = 50, l_adjusted = False\<rparr>,
      \<lparr>l_date = 1, l_ticker = ''A'', l_qty = 10, l_price = 30, l_orig_total = 300, l_adjusted = True\<rparr>]"
  by code_simp

lemma length_scan_lots: "length (fst (scan_lots tk d p bs)) = length bs"
  by (induction bs) (simp_all add: scan_lots_Cons)

lemma scan_lots_nth:
  "i < length bs \<Longrightarrow>
     fst (scan_lots tk d p bs) ! i = bs ! i \<or>
     (\<not> l_adjusted (bs ! i) \<and> l_adjusted (fst (scan_lots tk d p bs) ! i) \<and>
      l_price (bs ! i) < l_price (fst (scan_lots tk d p bs) ! i))"
proof (induction bs arbitrary: i)
  case Nil
  then show ?case by simp
next
  case (Cons a bs)
  show ?case
  proof (cases "adjustable d p a")
    case True
    then show ?thesis
      by (cases i) (simp_all add: scan_lots_Cons adjustable_def eligible_def adjusted_lot_def)
  next
    case False
    then show ?thesis
      using Cons by (cases i) (simp_all add: scan_lots_Cons)
  qed
qed

lemma record_body_lot:
  assumes "i < length (fst st tk)"
  shows "i < length (fst (record_body r p st) tk) \<and>
     (fst (record_body r p st) tk ! i = fst st tk ! i \<or>
      (\<not> l_adjusted (fst st tk ! i) \<and> l_adjusted (fst (record_body r p st) tk ! i) \<and>
       l_price (fst st tk ! i) < l_price (fst (record_body r p st) tk ! i)))"
proof (cases "r_type r = ''buy''")
  case True
  have eq: "fst (record_body r p st) =
      (fst st)(r_ticker r := fst st (r_ticker r) @
         [\<lparr>l_date = r_date r, l_ticker = r_ticker r, l_qty = r_qty r, l_price = p,
           l_orig_total = r_total_amount r, l_adjusted = False\<rparr>])"
    using True by (simp add: record_body_def Let_def)
  show ?thesis
  proof (cases "tk = r_ticker r")
    case False
    then show ?thesis using assms by (simp add: eq)
  next
    case tk: True
    show ?thesis using assms by (simp add: eq tk nth_append)
  qed
next
  case nb: False
  show ?thesis
  proof (cases "r_type r = ''sell''")
    case False
    then show ?thesis using nb assms by (simp add: record_body_def Let_def)
  next
    case True
    have eq: "fst (record_body r p st) =
        (fst st)(r_ticker r := fst (scan_lots (r_ticker r) (r_date r) p (fst st (r_ticker r))))"
      using nb True by (simp add: record_body_def Let_def split: prod.split)
    show ?thesis
    proof (cases "tk = r_ticker r")
      case False
      then show ?thesis using assms by (simp add: eq)
    next
      case tk: True
      show ?thesis
        using assms scan_lots_nth[of i "fst st tk" tk "r_date r" p]
        by (simp add: eq tk length_scan_lots)
    qed
  qed
qed

lemma process_record_lot:
  assumes "i < length (fst st tk)"
  shows "i < length (fst (process_record r st) tk) \<and>
     (fst (process_record r st) tk ! i = fst st tk ! i \<or>
      (\<not> l_adjusted (fst st tk ! i) \<and> l_adjusted (fst (process_record r st) tk ! i) \<and>
       l_price (fst st tk ! i) < l_price (fst (process_record r st) tk ! i)))"
  unfolding process_record_def using assms by (rule record_body_lot)

lemma adjusted_lot_frozen:
  assumes "i < length (fst st tk)" "l_adjusted (fst st tk ! i)"
  shows "adjust_count tk i rs st = 0 \<and> i < length (fst (wash_pass rs st) tk) \<and>
         fst (wash_pass rs st) tk ! i = fst st tk ! i"
  using assms
proof (induction rs arbitrary: st)
  case Nil
  then show ?case by (simp add: wash_pass_def)
next
  case (Cons r rs)
  have s: "i < length (fst (process_record r st) tk)"
    "fst (process_record r st) tk ! i = fst st tk ! i"
    using process_record_lot[OF Cons.prems(1), of r] Cons.prems(2) by auto
  have a: "l_adjusted (fst (process_record r st) tk ! i)" using s Cons.prems(2) by simp
  have ih: "adjust_count tk i rs (process_record r st) = 0 \<and>
      i < length (fst (wash_pass rs (process_record r st)) tk) \<and>
      fst (wash_pass rs (process_record r st)) tk ! i = fst (process_record r st) tk ! i"
    using Cons.IH[OF s(1) a] .
  have wp: "wash_pass (r # rs) st = wash_pass rs (process_record r st)"
    by (simp add: wash_pass_def)
  show ?case using ih s by (simp add: wp)
qed

lemma adjust_count_le_1: "adjust_count tk i rs st \<le> 1"
proof (induction rs arbitrary: st)
  case Nil
  show ?case by simp
next
  case (Cons r rs)
  show ?case
  proof (cases "i < length (fst st tk) \<and> fst (process_record r st) tk ! i \<noteq> fst st tk ! i")
    case False
    then have "adjust_count tk i (r # rs) st = adjust_count tk i rs (process_record r st)"
      by (simp only: adjust_count.simps if_False add_0)
    then show ?thesis using Cons.IH[of "process_record r st"] by simp
  next
    case True
    then have "i < length (fst (process_record r st) tk)"
      "l_adjusted (fst (process_record r st) tk ! i)"
      using process_record_lot[of i st tk r] by auto
    then have "adjust_count tk i rs (process_record r st) = 0"
      using adjusted_lot_frozen by blast
    then show ?thesis using True by simp
  qed
qed

text \<open>
  C7. Along the pass every lot is changed by at most one record, whatever the records are;
  and once the flag \<^verbatim>\<open>adjusted\<close> of a lot is set, no later record changes the lot (its price
  included). By \<open>process_record_lot\<close> a change of a lot is an adjustment: it sets the flag and
  raises the price.
\<close>

theorem lot_adjusted_at_most_once:
  "adjust_count tk i rs st \<le> 1 \<and>
   (i < length (fst st tk) \<and> l_adjusted (fst st tk ! i) \<longrightarrow>
      adjust_count tk i rs st = 0 \<and> i < length (fst (wash_pass rs st) tk) \<and>
      fst (wash_pass rs st) tk ! i = fst st tk ! i)"
  using adjust_count_le_1 adjusted_lot_frozen by blast


theorem lot_adjusted_at_most_once_witness:
  "adjust_count ''A'' 1 (c1_records @ [later_sell]) wash_init = 1 \<and>
   1 < length (fst (wash_pass c1_records wash_init) ''A'') \<and>
   l_adjusted (fst (wash_pass c1_records wash_init) ''A'' ! 1) \<and>
   adjust_count ''A'' 1 [later_sell] (wash_pass c1_records wash_init) = 0 \<and>
   fst (wash_pass [later_sell] (wash_pass c1_records wash_init)) ''A'' ! 1
     = fst (wash_pass c1_records wash_init) ''A'' ! 1"
proof -
  have c: "adjust_count ''A'' 1 (c1_records @ [later_sell]) wash_init = 1" by code_simp
  have h1: "1 < length (fst (wash_pass c1_records wash_init) ''A'')" by code_simp
  have h2: "l_adjusted (fst (wash_pass c1_records wash_init) ''A'' ! 1)" by code_simp
  show ?thesis
    using c h1 h2
      lot_adjusted_at_most_once [of "''A''" 1 "[later_sell]" "wash_pass c1_records wash_init"]
    by blast
qed

section \<open>The two entry points agree where \<^verbatim>\<open>orders.py\<close> returns\<close>

text \<open>
  Whenever the pass of \<^verbatim>\<open>orders.py\<close> does not raise, it ends in the state the pass of
  \<^verbatim>\<open>app.py\<close> ends in; the properties of the pass above hold of both.
\<close>

lemma process_record_orders_Inr:
  "process_record_orders r st = Inr st' \<Longrightarrow> st' = process_record r st"
  by (auto simp: process_record_orders_def process_record_def split: if_splits)

lemma wash_pass_orders_Inr:
  "wash_pass_orders rs st = Inr st' \<Longrightarrow> st' = wash_pass rs st"
proof (induction rs arbitrary: st)
  case Nil
  then show ?case by (simp add: wash_pass_def)
next
  case (Cons r rs)
  from Cons.prems obtain st1 where s1: "process_record_orders r st = Inr st1"
    and s2: "wash_pass_orders rs st1 = Inr st'"
    by (auto split: sum.splits)
  have "st1 = process_record r st" using s1 by (rule process_record_orders_Inr)
  moreover have "st' = wash_pass rs st1" using s2 by (rule Cons.IH)
  ultimately show ?case by (simp add: wash_pass_def)
qed

lemma apply_wash_sale_orders_Inr:
  "apply_wash_sale_orders rs = Inr ws \<Longrightarrow> ws = apply_wash_sale rs"
  by (auto simp: apply_wash_sale_orders_def apply_wash_sale_def split: sum.splits
      dest: wash_pass_orders_Inr)

section \<open>Zero quantity\<close>

lemma Trade_init_zero_qty: "price (Trade_init d ot tk amount 0) = 0"
  by (simp add: Trade_init_def)

text \<open>
  C2. A row with quantity 0: \<^verbatim>\<open>orders.py\<close> raises \<^verbatim>\<open>ZeroDivisionError\<close> when it builds the
  Trade and when the wash-sale pass processes the row, so loading fails and the run ends
  without matches; \<^verbatim>\<open>app.py\<close> takes 0 as the unit price and goes on.
\<close>

theorem zero_qty_raises_in_orders_py:
  "Trade_init_orders 0 ''buy'' ''X'' 100 0 = Inl ZeroDivisionError \<and>
   apply_wash_sale_orders [zero_qty_record] = Inl ZeroDivisionError \<and>
   load_orders_orders [zero_qty_record] = Inl ZeroDivisionError \<and>
   main_orders [zero_qty_record] ''1'' = Inl ZeroDivisionError \<and>
   price (Trade_init 0 ''buy'' ''X'' 100 0) = 0 \<and>
   apply_wash_sale [zero_qty_record] = [] \<and>
   process [zero_qty_record] (Some ''1'') = Inr []"
  by code_simp

section \<open>Strategy resolution\<close>

lemma strategy_map_1: "strategy_map ''1'' = Some objective_profit"
  by (simp add: strategy_map_def)

lemma resolve_strategy_unknown: "strategy_map k = None \<Longrightarrow> resolve_strategy (Some k) = ''1''"
  by (simp add: resolve_strategy_def strategy_map_1)

lemma resolve_strategy_known: "strategy_map (resolve_strategy s) \<noteq> None"
  by (simp add: resolve_strategy_def strategy_map_1 Let_def split: option.split)

lemma resolve_selected_known: "strategy_map (resolve_selected k) \<noteq> None"
  by (simp add: resolve_selected_def strategy_map_1)

text \<open>
  C5. Resolving the strategy key never fails in either entry point: the resolved key is
  always in \<open>strategy_map\<close>. An absent key gives the output of key 1 (objective 1,
  \<open>objective_profit\<close>), and so does every key that is not in the table, such as 9.
\<close>

theorem unknown_strategy_falls_back:
  "strategy_map (resolve_strategy s) \<noteq> None \<and>
   strategy_map (resolve_selected k) \<noteq> None \<and>
   process records None = process records (Some ''1'') \<and>
   process records None = Inr (fst (generate_matches (load_orders records) objective_profit)) \<and>
   (strategy_map k = None \<longrightarrow>
      process records (Some k) = process records (Some ''1'') \<and>
      main_orders records k = main_orders records ''1'')"
proof -
  have a: "resolve_strategy None = ''1''" "resolve_strategy (Some ''1'') = ''1''"
    by (simp_all add: resolve_strategy_def strategy_map_1)
  have b: "process records None = process records (Some ''1'')"
    by (simp add: process_def a)
  have b': "process records None = Inr (fst (generate_matches (load_orders records) objective_profit))"
    by (simp add: process_def a strategy_map_1)
  have c: "process records (Some k) = process records (Some ''1'')" if "strategy_map k = None"
    using that by (simp add: process_def a resolve_strategy_unknown)
  have d: "main_orders records k = main_orders records ''1''" if "strategy_map k = None"
  proof -
    have "resolve_selected k = resolve_selected ''1''"
      using that by (simp add: resolve_selected_def strategy_map_1)
    then show ?thesis by (simp only: main_orders_def)
  qed
  show ?thesis
    using resolve_strategy_known resolve_selected_known b b' c d by blast
qed

theorem unknown_strategy_falls_back_witness:
  "strategy_map ''9'' = None \<and>
   process example_records (Some ''9'') = process example_records (Some ''1'') \<and>
   main_orders example_records ''9'' = main_orders example_records ''1'' \<and>
   process example_records (Some ''9'') =
     Inr [\<lparr>buy = 0, sell = 2, m_qty = 5, profit = 20, holding_period_days = 6, is_wash_sale = False\<rparr>]"
proof -
  have h: "strategy_map ''9'' = None" by (simp add: strategy_map_def)
  have v: "process example_records (Some ''9'') =
     Inr [\<lparr>buy = 0, sell = 2, m_qty = 5, profit = 20, holding_period_days = 6, is_wash_sale = False\<rparr>]"
    by code_simp
  show ?thesis
    using h v unknown_strategy_falls_back [of "Some ''9''" "''9''" example_records] by blast
qed

end
